theory Spec2Isabelle
  imports Complex_Main "HOL-Library.AList" "HOL-Library.Multiset"
begin

section \<open>Data model\<close>

text \<open>
  The optimisation utilities work on TypeScript \<^verbatim>\<open>number\<close> fields. A number is modelled
  as a \<^typ>\<open>real\<close>: every finite double is a real, the comparisons of the source
  (\<^verbatim>\<open>===\<close>, \<^verbatim>\<open><\<close>, \<^verbatim>\<open>>=\<close>, ...) against its literals are exact, and the one piece of
  arithmetic (\<^verbatim>\<open>sorted.length * (threshold / 100)\<close>) rounds each result to the nearest
  double (\<open>roundDouble\<close> below). NaN and the infinities are outside the model. Optional
  fields are options.
\<close>

datatype Recommendation = INCREASE | MAINTAIN | ADD | DECREASE

datatype Priority = HIGH | MEDIUM | LOW

text \<open>\<^verbatim>\<open>interface OptimizationResult\<close>; its \<^verbatim>\<open>channel\<close> field is \<^verbatim>\<open>channel_r\<close> here,
  since the field name is taken by the record of the input.\<close>

record OptimizationResult =
  channel_r :: string
  recommendation :: Recommendation
  priority :: Priority
  reason :: string

text \<open>\<^verbatim>\<open>interface ChannelRecord\<close>.\<close>

record ChannelRecord =
  channel :: string
  genre :: string
  santoorReach :: real
  maxCompReach :: real
  gap :: real
  channelShare :: real
  indexVsBaseline :: real
  indexVsCompetition :: real
  godrejReach :: "real option"
  luxReach :: "real option"
  lifebuoyReach :: "real option"
  mysore_sandalReach :: "real option"
  atcIndex :: "real option"
  optimizationType :: "string option"

text \<open>The status strings that \<^verbatim>\<open>calculateStatus\<close> returns, one constructor per literal.\<close>

datatype Status =
  INACTIVE | OPPORTUNITY | MONOPOLY | DOMINANT | LEADING | CLOSE | BEHIND | CRITICAL

text \<open>
  The number formatting of the language, which the reason strings use and the source
  does not define: \<^verbatim>\<open>x.toFixed(d)\<close> and the conversion of a number inside a
  template literal. Both are parameters of the model.
\<close>

record NumberFormat =
  toFixed :: "nat \<Rightarrow> real \<Rightarrow> string"
  toString :: "real \<Rightarrow> string"

section \<open>Status\<close>

definition calculateStatus :: "ChannelRecord \<Rightarrow> Status" where
  "calculateStatus ch =
    (if santoorReach ch = 0 \<and> maxCompReach ch = 0 then INACTIVE
     else if santoorReach ch = 0 \<and> maxCompReach ch \<ge> 2.0 \<and> channelShare ch \<ge> 1.0 then OPPORTUNITY
     else if santoorReach ch = 0 \<and> maxCompReach ch > 0 then INACTIVE
     else if santoorReach ch > 0 \<and> maxCompReach ch = 0 then MONOPOLY
     else if indexVsCompetition ch \<ge> 150 then DOMINANT
     else if indexVsCompetition ch \<ge> 100 then LEADING
     else if indexVsCompetition ch \<ge> 80 then CLOSE
     else if indexVsCompetition ch \<ge> 50 then BEHIND
     else CRITICAL)"

section \<open>Double arithmetic\<close>

text \<open>
  The arithmetic of the source is IEEE 754 binary64, round to nearest, ties to even.
  \<open>roundDouble x\<close> is the double nearest to the real \<open>x\<close>. The doubles of magnitude
  below \<open>binade k\<close> (and, for \<open>k > 0\<close>, not below \<open>binade (k - 1)\<close>) are the multiples of
  \<open>2 ^ k * minSubnormal\<close>; \<open>quantumExp\<close> finds the \<open>k\<close> of a magnitude, searching upwards
  from the subnormal range.

  Overflow to \<^verbatim>\<open>Infinity\<close> is not modelled: a result beyond the largest double stays a
  finite real, which \<^verbatim>\<open>Math.ceil\<close> and \<^verbatim>\<open>slice\<close> treat as they treat \<^verbatim>\<open>Infinity\<close>, the end
  of a slice being clamped to the array.
\<close>

definition roundHalfEven :: "real \<Rightarrow> int" where
  "roundHalfEven r =
    (let f = \<lfloor>r\<rfloor>; d = r - of_int f
     in if d < 1 / 2 then f else if d > 1 / 2 then f + 1 else if even f then f else f + 1)"

definition minSubnormal :: real where
  "minSubnormal = 1 / 2 ^ 1074"

definition binade :: "nat \<Rightarrow> real" where
  "binade k = 2 ^ 53 * (2 ^ k * minSubnormal)"

function quantumExp :: "nat \<Rightarrow> real \<Rightarrow> nat" where
  "quantumExp k a = (if a < binade k then k else quantumExp (Suc k) a)"
  by pat_completeness auto
termination
proof (relation "measure (\<lambda>(k, a). nat \<lceil>a / minSubnormal\<rceil> - k)")
  show "wf (measure (\<lambda>(k, a). nat \<lceil>a / minSubnormal\<rceil> - k))" by simp
next
  fix k :: nat and a :: real
  assume "\<not> a < binade k"
  moreover have "0 < minSubnormal" by (simp add: minSubnormal_def)
  ultimately have "2 ^ 53 * 2 ^ k \<le> a / minSubnormal"
    by (simp add: binade_def field_simps)
  moreover have "(1::real) * 2 ^ k \<le> 2 ^ 53 * 2 ^ k"
    by (rule mult_right_mono) simp_all
  moreover have "real k < 2 ^ k"
    by (rule of_nat_less_two_power)
  ultimately have "real k < a / minSubnormal" by linarith
  then have "int k < \<lceil>a / minSubnormal\<rceil>" by linarith
  then have "k < nat \<lceil>a / minSubnormal\<rceil>" by linarith
  then show "((Suc k, a), (k, a)) \<in> measure (\<lambda>(k, a). nat \<lceil>a / minSubnormal\<rceil> - k)"
    by simp
qed

definition quantum :: "real \<Rightarrow> real" where
  "quantum x = 2 ^ quantumExp 0 \<bar>x\<bar> * minSubnormal"

definition roundDouble :: "real \<Rightarrow> real" where
  "roundDouble x = quantum x * of_int (roundHalfEven (x / quantum x))"

section \<open>Protected channels\<close>

text \<open>
  \<^verbatim>\<open>Array.prototype.sort(cmp)\<close>: a stable sort by the sign of the comparator. An element
  goes before the first element it does not compare greater than, so equal elements
  keep their input order.
\<close>

fun insertBy :: "('a \<Rightarrow> 'a \<Rightarrow> real) \<Rightarrow> 'a \<Rightarrow> 'a list \<Rightarrow> 'a list" where
  "insertBy cmp x [] = [x]"
| "insertBy cmp x (y # ys) = (if cmp x y \<le> 0 then x # y # ys else y # insertBy cmp x ys)"

definition sortBy :: "('a \<Rightarrow> 'a \<Rightarrow> real) \<Rightarrow> 'a list \<Rightarrow> 'a list" where
  "sortBy cmp xs = foldr (insertBy cmp) xs []"

text \<open>
  \<^verbatim>\<open>Array.prototype.slice(start, end)\<close>: a negative index counts from the end, and both
  indices are clamped to the array.
\<close>

definition slice :: "int \<Rightarrow> int \<Rightarrow> 'a list \<Rightarrow> 'a list" where
  "slice start end xs =
    (let len = int (length xs);
         k = (if start < 0 then max (len + start) 0 else min start len);
         final = (if end < 0 then max (len + end) 0 else min end len)
     in take (nat (final - k)) (drop (nat k) xs))"

definition getProtectedChannels :: "ChannelRecord list \<Rightarrow> real \<Rightarrow> string list" where
  "getProtectedChannels channels threshold =
    (let withSantoor = filter (\<lambda>ch. santoorReach ch > 0) channels;
         sorted = sortBy (\<lambda>a b. santoorReach b - santoorReach a) withSantoor;
         cutoff = \<lceil>roundDouble (real (length sorted) * roundDouble (threshold / 100))\<rceil>
     in map channel (slice 0 cutoff sorted))"

section \<open>Recommendations\<close>

text \<open>The two cutoffs that \<^verbatim>\<open>runOptimization\<close> derives from the intensity.\<close>

definition gapThreshold :: "real \<Rightarrow> real" where
  "gapThreshold intensity = (if intensity \<le> 10 then -3 else if intensity \<le> 20 then -2 else -1)"

definition indexThreshold :: "real \<Rightarrow> real" where
  "indexThreshold intensity = (if intensity \<le> 10 then 70 else if intensity \<le> 20 then 80 else 90)"

text \<open>
  The result is a \<^verbatim>\<open>Map\<close>: an association list in insertion order, where
  \<^verbatim>\<open>results.set(k, v)\<close> replaces the value of a key that is present and appends a new
  key otherwise (\<^const>\<open>AList.update\<close>), and \<^verbatim>\<open>results.get(k)\<close> is \<^const>\<open>map_of\<close>.

  \<open>loopBody\<close> is one iteration of the \<^verbatim>\<open>for (const ch of channels)\<close> loop; a
  \<^verbatim>\<open>continue\<close> returns the map as it stands.
\<close>

definition loopBody ::
  "NumberFormat \<Rightarrow> string list \<Rightarrow> real \<Rightarrow> real \<Rightarrow> real \<Rightarrow>
   (string \<times> OptimizationResult) list \<Rightarrow> ChannelRecord \<Rightarrow> (string \<times> OptimizationResult) list" where
  "loopBody fmt protectedChannels gapT indexT threshold results ch =
    (if santoorReach ch = 0 \<and> maxCompReach ch = 0 then results
     else
       let isProtected = (channel ch \<in> set protectedChannels) in
       if santoorReach ch = 0 \<and> maxCompReach ch \<ge> 2.0 \<and> channelShare ch \<ge> 1.0 then
         AList.update (channel ch)
           \<lparr>channel_r = channel ch,
            recommendation = ADD,
            priority = (if maxCompReach ch > 5 then HIGH else if maxCompReach ch > 3 then MEDIUM else LOW),
            reason = ''Competitor at '' @ toFixed fmt 1 (maxCompReach ch) @ ''%, Share ''
                     @ toFixed fmt 1 (channelShare ch) @ ''%''\<rparr>
           results
       else if santoorReach ch > 0 \<and> gap ch < gapT \<and> indexVsCompetition ch < indexT then
         AList.update (channel ch)
           \<lparr>channel_r = channel ch,
            recommendation = INCREASE,
            priority = (if gap ch < -5 then HIGH else if gap ch < -2 then MEDIUM else LOW),
            reason = ''Gap of '' @ toFixed fmt 1 (gap ch) @ '' pts, Index ''
                     @ toFixed fmt 0 (indexVsCompetition ch)\<rparr>
           results
       else if isProtected \<or> indexVsCompetition ch \<ge> 100 then
         AList.update (channel ch)
           \<lparr>channel_r = channel ch,
            recommendation = MAINTAIN,
            priority = LOW,
            reason = (if isProtected then ''Top '' @ toString fmt threshold @ ''% - protected''
                      else ''Leading competition'')\<rparr>
           results
       else if \<not> isProtected \<and> santoorReach ch > 0 \<and> santoorReach ch < 1.5
               \<and> indexVsCompetition ch > 120 then
         AList.update (channel ch)
           \<lparr>channel_r = channel ch,
            recommendation = DECREASE,
            priority = LOW,
            reason = ''Low reach ('' @ toFixed fmt 1 (santoorReach ch) @ ''%), reallocate budget''\<rparr>
           results
       else if santoorReach ch > 0 then
         AList.update (channel ch)
           \<lparr>channel_r = channel ch,
            recommendation = MAINTAIN,
            priority = LOW,
            reason = ''Stable performance''\<rparr>
           results
       else results)"

definition runOptimization ::
  "NumberFormat \<Rightarrow> ChannelRecord list \<Rightarrow> real \<Rightarrow> real \<Rightarrow> (string \<times> OptimizationResult) list" where
  "runOptimization fmt channels intensity threshold =
    (let protectedChannels = getProtectedChannels channels threshold
     in foldl (loopBody fmt protectedChannels (gapThreshold intensity) (indexThreshold intensity) threshold)
          [] channels)"

text \<open>What one iteration stores under the name of its record, if anything.\<close>

definition emitted ::
  "NumberFormat \<Rightarrow> string list \<Rightarrow> real \<Rightarrow> real \<Rightarrow> real \<Rightarrow> ChannelRecord \<Rightarrow> OptimizationResult option" where
  "emitted fmt protectedChannels gapT indexT threshold ch =
     map_of (loopBody fmt protectedChannels gapT indexT threshold [] ch) (channel ch)"

section \<open>Invocations\<close>

text \<open>
  To speak of two invocations, the arrays of records are objects in a heap: an invocation
  gets a reference to the caller's array and may allocate arrays and change arrays, and the
  next invocation runs in the heap that it leaves. The functions below are the source once
  more, line by line, on references: \<^verbatim>\<open>channels.filter(...)\<close> allocates an array,
  \<^verbatim>\<open>[...withSantoor]\<close> allocates a copy, \<^verbatim>\<open>.sort(cmp)\<close> sorts the array it is called on in
  place, with the algorithm of the engine, and the loop reads the caller's array again.
  The arrays that \<^verbatim>\<open>slice\<close> and \<^verbatim>\<open>map\<close> return and the \<^verbatim>\<open>Map\<close> are new objects that
  nothing else refers to; they are values here. The source has no variable outside its
  functions, so the heap is all the state there is.
\<close>

record heap =
  arrays :: "nat \<Rightarrow> ChannelRecord list"
  fresh :: nat

type_synonym engineSort =
  "(ChannelRecord \<Rightarrow> ChannelRecord \<Rightarrow> real) \<Rightarrow> ChannelRecord list \<Rightarrow> ChannelRecord list"

definition newArray :: "ChannelRecord list \<Rightarrow> heap \<Rightarrow> nat \<times> heap" where
  "newArray xs h = (fresh h, \<lparr>arrays = (arrays h)(fresh h := xs), fresh = Suc (fresh h)\<rparr>)"

definition sortInPlace ::
  "engineSort \<Rightarrow> (ChannelRecord \<Rightarrow> ChannelRecord \<Rightarrow> real) \<Rightarrow> nat \<Rightarrow> heap \<Rightarrow> heap" where
  "sortInPlace srt cmp a h = h\<lparr>arrays := (arrays h)(a := srt cmp (arrays h a))\<rparr>"

definition invokeGetProtectedChannels ::
  "engineSort \<Rightarrow> nat \<Rightarrow> real \<Rightarrow> heap \<Rightarrow> string list \<times> heap" where
  "invokeGetProtectedChannels srt channels threshold h =
    (let (withSantoor, h1) = newArray (filter (\<lambda>ch. santoorReach ch > 0) (arrays h channels)) h;
         (copy, h2) = newArray (arrays h1 withSantoor) h1;
         h3 = sortInPlace srt (\<lambda>a b. santoorReach b - santoorReach a) copy h2;
         sorted = copy;
         cutoff = \<lceil>roundDouble (real (length (arrays h3 sorted)) * roundDouble (threshold / 100))\<rceil>
     in (map channel (slice 0 cutoff (arrays h3 sorted)), h3))"

definition invokeRunOptimization ::
  "engineSort \<Rightarrow> NumberFormat \<Rightarrow> nat \<Rightarrow> real \<Rightarrow> real \<Rightarrow> heap
   \<Rightarrow> (string \<times> OptimizationResult) list \<times> heap" where
  "invokeRunOptimization srt fmt channels intensity threshold h =
    (let (protectedChannels, h1) = invokeGetProtectedChannels srt channels threshold h
     in (foldl (loopBody fmt protectedChannels (gapThreshold intensity) (indexThreshold intensity)
                  threshold) [] (arrays h1 channels),
         h1))"

text \<open>
  What the language asks of the engine's \<^verbatim>\<open>sort\<close>, for the comparators that are the
  difference of a numeric key, \<^verbatim>\<open>(a, b) => key(b) - key(a)\<close>: the result holds the same
  elements, in descending order of the key, elements of equal key in their old order.
\<close>

definition stableSort :: "engineSort \<Rightarrow> bool" where
  "stableSort srt \<longleftrightarrow>
    (\<forall>key xs.
       mset (srt (\<lambda>a b. key b - key a) xs) = mset xs
     \<and> sorted_wrt (\<lambda>a b. key b \<le> key a) (srt (\<lambda>a b. key b - key a) xs)
     \<and> (\<forall>v. filter (\<lambda>c. key c = v) (srt (\<lambda>a b. key b - key a) xs) = filter (\<lambda>c. key c = v) xs))"

section \<open>Example inputs\<close>

text \<open>
  A number format and a record constructor for running the functions on concrete inputs.
  The theorems below hold for every number format; the examples fix one.
\<close>

definition exampleFormat :: NumberFormat where
  "exampleFormat = \<lparr>toFixed = (\<lambda>d x. ''#''), toString = (\<lambda>x. ''#'')\<rparr>"

definition exampleChannel :: "string \<Rightarrow> real \<Rightarrow> real \<Rightarrow> real \<Rightarrow> real \<Rightarrow> real \<Rightarrow> ChannelRecord" where
  "exampleChannel name s m g share idx =
     \<lparr>channel = name, genre = ''GEC'', santoorReach = s, maxCompReach = m, gap = g,
      channelShare = share, indexVsBaseline = 100, indexVsCompetition = idx,
      godrejReach = None, luxReach = None, lifebuoyReach = None, mysore_sandalReach = None,
      atcIndex = None, optimizationType = None\<rparr>"

definition exampleList :: "ChannelRecord list" where
  "exampleList =
     [exampleChannel ''A'' 4 8 (-4) 2 50, exampleChannel ''B'' 9 3 6 5 300,
      exampleChannel ''C'' 0 0 0 1 0, exampleChannel ''D'' 4 5 (-1) 2 80,
      exampleChannel ''E'' 6 6 0 3 100, exampleChannel ''F'' 7 7.5 (-0.5) 4 93]"


text \<open>A heap with the example list as its only array, at reference 0.\<close>

definition exampleHeap :: heap where
  "exampleHeap = \<lparr>arrays = (\<lambda>a. [])(0 := exampleList), fresh = 1\<rparr>"

text \<open>
  A second sorting algorithm for the examples: it takes the elements from the front and
  puts each one behind the elements that it does not have to precede.
\<close>

fun insertBehind :: "('a \<Rightarrow> 'a \<Rightarrow> real) \<Rightarrow> 'a \<Rightarrow> 'a list \<Rightarrow> 'a list" where
  "insertBehind cmp x [] = [x]"
| "insertBehind cmp x (y # ys) = (if cmp y x \<le> 0 then y # insertBehind cmp x ys else x # y # ys)"

definition sortForward :: "('a \<Rightarrow> 'a \<Rightarrow> real) \<Rightarrow> 'a list \<Rightarrow> 'a list" where
  "sortForward cmp xs = foldl (\<lambda>acc x. insertBehind cmp x acc) [] xs"

section \<open>Auxiliary facts\<close>

subsection \<open>Double arithmetic\<close>

declare quantumExp.simps [simp del]

lemma minSubnormal_pos: "0 < minSubnormal"
  by (simp add: minSubnormal_def)

lemma binade_less_iff: "binade i < binade j \<longleftrightarrow> i < j"
  using minSubnormal_pos by (simp add: binade_def)

lemma binade_le_iff: "binade i \<le> binade j \<longleftrightarrow> i \<le> j"
  using minSubnormal_pos by (simp add: binade_def)

lemmas quantumExp_unfold = quantumExp.simps

lemma quantumExp_ge: "k \<le> quantumExp k a"
proof (induction k a rule: quantumExp.induct)
  case (1 k a)
  show ?case
  proof (cases "a < binade k")
    case True
    then show ?thesis by (subst quantumExp_unfold) simp
  next
    case False
    from "1.IH" [OF this] False show ?thesis by (subst quantumExp_unfold) simp
  qed
qed

lemma quantumExp_upper: "a < binade (quantumExp k a)"
proof (induction k a rule: quantumExp.induct)
  case (1 k a)
  show ?case
  proof (cases "a < binade k")
    case True
    then show ?thesis by (subst quantumExp_unfold) simp
  next
    case False
    from "1.IH" [OF this] False show ?thesis by (subst quantumExp_unfold) simp
  qed
qed

lemma quantumExp_lower: "k < quantumExp k a \<Longrightarrow> binade (quantumExp k a - 1) \<le> a"
proof (induction k a rule: quantumExp.induct)
  case (1 k a)
  show ?case
  proof (cases "a < binade k")
    case True
    then have "quantumExp k a = k" by (subst quantumExp_unfold) simp
    with "1.prems" show ?thesis by simp
  next
    case False
    note nb = False
    from False have eq: "quantumExp k a = quantumExp (Suc k) a"
      by (subst quantumExp_unfold) simp
    show ?thesis
    proof (cases "Suc k < quantumExp (Suc k) a")
      case True
      from "1.IH" [OF nb True] eq show ?thesis by simp
    next
      case False
      with quantumExp_ge [of "Suc k" a] have "quantumExp (Suc k) a = Suc k" by simp
      with eq \<open>\<not> a < binade k\<close> show ?thesis by simp
    qed
  qed
qed

lemma quantumExp_eqI:
  assumes "a < binade n" and "n = 0 \<or> binade (n - 1) \<le> a"
  shows "quantumExp 0 a = n"
proof (rule antisym)
  show "quantumExp 0 a \<le> n"
  proof (rule ccontr)
    assume "\<not> quantumExp 0 a \<le> n"
    then have gt: "n < quantumExp 0 a" by simp
    then have "binade (quantumExp 0 a - 1) \<le> a" by (intro quantumExp_lower) simp
    with assms(1) have "binade (quantumExp 0 a - 1) < binade n" by simp
    then have "quantumExp 0 a - 1 < n" by (simp add: binade_less_iff)
    with gt show False by simp
  qed
  show "n \<le> quantumExp 0 a"
  proof (rule ccontr)
    assume "\<not> n \<le> quantumExp 0 a"
    then have lt: "quantumExp 0 a < n" by simp
    with assms(2) have "binade (n - 1) \<le> a" by auto
    with quantumExp_upper [of a 0] have "binade (n - 1) < binade (quantumExp 0 a)" by simp
    then have "n - 1 < quantumExp 0 a" by (simp add: binade_less_iff)
    with lt show False by simp
  qed
qed


lemma roundHalfEven_of_int [simp]: "roundHalfEven (of_int k) = k"
  by (simp add: roundHalfEven_def)




lemma quantum_pos: "0 < quantum x"
  using minSubnormal_pos by (simp add: quantum_def)

lemma roundDouble_eval:
  assumes "\<bar>x\<bar> < binade n" and "n = 0 \<or> binade (n - 1) \<le> \<bar>x\<bar>"
  shows "roundDouble x = 2 ^ n * minSubnormal * of_int (roundHalfEven (x / (2 ^ n * minSubnormal)))"
  unfolding roundDouble_def quantum_def quantumExp_eqI [OF assms] ..

lemma roundDouble_zero [simp]: "roundDouble 0 = 0"
  using roundHalfEven_of_int [of 0] by (simp add: roundDouble_def)





lemma minSubnormal_1074: "2 ^ 1074 * minSubnormal = 1"
  by (simp add: minSubnormal_def)

lemma pow_minSubnormal:
  assumes "j \<le> 1074"
  shows "2 ^ (1074 - j) * minSubnormal = 1 / 2 ^ j"
proof -
  have "(1074 - j) + j = 1074" using assms by linarith
  then have "(2::real) ^ (1074 - j) * 2 ^ j = 2 ^ 1074" by (metis power_add)
  then have "2 ^ (1074 - j) * minSubnormal * 2 ^ j = 2 ^ 1074 * minSubnormal"
    by (metis mult.assoc mult.commute)
  then have "2 ^ (1074 - j) * minSubnormal * 2 ^ j = 1"
    by (simp only: minSubnormal_1074)
  then show ?thesis
    by (simp add: field_simps)
qed

lemma binade_frac:
  assumes "j \<le> 1074"
  shows "binade (1074 - j) = 2 ^ 53 / 2 ^ j"
  unfolding binade_def pow_minSubnormal [OF assms] by simp

lemma roundDouble_frac:
  assumes "j \<le> 1074" and "\<bar>x\<bar> * 2 ^ j < 2 ^ 53" and "j = 1074 \<or> 2 ^ 52 \<le> \<bar>x\<bar> * 2 ^ j"
  shows "roundDouble x = of_int (roundHalfEven (x * 2 ^ j)) / 2 ^ j"
proof -
  have up: "\<bar>x\<bar> < binade (1074 - j)"
    using assms(2) by (simp add: binade_frac [OF assms(1)] field_simps)
  have low: "1074 - j = 0 \<or> binade (1074 - j - 1) \<le> \<bar>x\<bar>"
  proof (cases "j = 1074")
    case True
    then show ?thesis by simp
  next
    case False
    with assms have j: "Suc j \<le> 1074" and m: "2 ^ 52 \<le> \<bar>x\<bar> * 2 ^ j" by simp_all
    have "1074 - j - 1 = 1074 - Suc j" by simp
    then have "binade (1074 - j - 1) = 2 ^ 53 / 2 ^ Suc j"
      using binade_frac [OF j] by simp
    also have "\<dots> = 2 ^ 52 / 2 ^ j" by simp
    also have "\<dots> \<le> \<bar>x\<bar>" using m by (simp add: field_simps)
    finally show ?thesis by simp
  qed
  show ?thesis
    unfolding roundDouble_eval [OF up low] pow_minSubnormal [OF assms(1)] by simp
qed

lemma roundDouble_nat:
  assumes "real n < 2 ^ 53"
  shows "roundDouble (real n) = real n"
proof -
  let ?m = "quantumExp 0 \<bar>real n\<bar>"
  have small: "?m \<le> 1074"
  proof (rule ccontr)
    assume "\<not> ?m \<le> 1074"
    then have big: "1074 < ?m" by simp
    then have "binade (?m - 1) \<le> \<bar>real n\<bar>" by (intro quantumExp_lower) simp
    moreover have "binade 1074 \<le> binade (?m - 1)"
    proof -
      from big have "1074 \<le> ?m - 1" by linarith
      then show ?thesis by (simp only: binade_le_iff)
    qed
    moreover have "binade 1074 = 2 ^ 53"
      using binade_frac [of 0] by simp
    ultimately have "(2::real) ^ 53 \<le> real n" by simp
    with assms show False by linarith
  qed
  define j where "j = 1074 - ?m"
  have j: "j \<le> 1074" and m: "?m = 1074 - j" using small by (simp_all add: j_def)
  have q: "quantum (real n) = 1 / 2 ^ j"
    unfolding quantum_def m by (rule pow_minSubnormal [OF j])
  have "real n / quantum (real n) = of_int (int n * 2 ^ j)"
    by (simp add: q)
  then have "roundDouble (real n) = quantum (real n) * (real n / quantum (real n))"
    unfolding roundDouble_def by (simp only: roundHalfEven_of_int)
  then show ?thesis using quantum_pos [of "real n"] by simp
qed

lemma roundDouble_one [simp]: "roundDouble 1 = 1"
  using roundDouble_nat [of 1] by simp

subsection \<open>Sorting and slicing\<close>

lemma insertBy_insort_key:
  "insertBy (\<lambda>a b. santoorReach b - santoorReach a) x ys = insort_key (\<lambda>c. - santoorReach c) x ys"
  by (induction ys) auto

lemma sortBy_sort_key:
  "sortBy (\<lambda>a b. santoorReach b - santoorReach a) xs = sort_key (\<lambda>c. - santoorReach c) xs"
  unfolding sortBy_def sort_key_def
  by (induction xs) (auto simp: insertBy_insort_key)


lemma stable_ranking_unique:
  assumes "mset ys = mset xs"
    and "sorted_wrt (\<lambda>a b. santoorReach b \<le> santoorReach a) ys"
    and "\<forall>v. filter (\<lambda>c. santoorReach c = v) ys = filter (\<lambda>c. santoorReach c = v) xs"
  shows "ys = sort_key (\<lambda>c. - santoorReach c) xs"
proof -
  have "sort_key (\<lambda>c. - santoorReach c) xs = ys"
  proof (rule properties_for_sort_key)
    show "mset ys = mset xs" by fact
    show "sorted (map (\<lambda>c. - santoorReach c) ys)"
      using assms(2) by (simp add: sorted_map)
    fix k
    have "filter (\<lambda>c. santoorReach c = santoorReach k) ys
        = filter (\<lambda>c. santoorReach c = santoorReach k) xs"
      using assms(3) by blast
    then show "filter (\<lambda>x. - santoorReach k = - santoorReach x) ys
        = filter (\<lambda>x. - santoorReach k = - santoorReach x) xs"
      by (simp add: eq_commute [of "santoorReach k"])
  qed
  then show ?thesis by simp
qed


text \<open>
  The protected channels do not depend on the sorting algorithm: any list that a stable
  sort by descending reach may return gives the same result.
\<close>

lemma getProtectedChannels_any_stable_sort:
  assumes "mset ranked = mset (filter (\<lambda>ch. 0 < santoorReach ch) chs)"
    and "sorted_wrt (\<lambda>a b. santoorReach b \<le> santoorReach a) ranked"
    and "\<forall>v. filter (\<lambda>c. santoorReach c = v) ranked
           = filter (\<lambda>c. santoorReach c = v) (filter (\<lambda>ch. 0 < santoorReach ch) chs)"
  shows "getProtectedChannels chs t =
    map channel (slice 0 \<lceil>roundDouble (real (length ranked) * roundDouble (t / 100))\<rceil> ranked)"
proof -
  have "ranked = sort_key (\<lambda>c. - santoorReach c) (filter (\<lambda>ch. 0 < santoorReach ch) chs)"
    using assms by (rule stable_ranking_unique)
  then show ?thesis
    unfolding getProtectedChannels_def Let_def sortBy_sort_key by simp
qed









subsection \<open>One iteration and the whole loop\<close>

lemma loopBody_emitted:
  "loopBody fmt p g i t res ch =
     (case emitted fmt p g i t ch of None \<Rightarrow> res | Some r \<Rightarrow> AList.update (channel ch) r res)"
  unfolding emitted_def loopBody_def Let_def
  by (simp add: update_conv')

lemma emitted_cases:
  "emitted fmt p g i t ch = Some r \<Longrightarrow>
     \<not> (santoorReach ch = 0 \<and> maxCompReach ch = 0) \<and> channel_r r = channel ch \<and> recommendation r \<noteq> DECREASE"
  unfolding emitted_def loopBody_def Let_def
  by (auto split: if_splits)

lemma set_update_cases:
  "(k, r) \<in> set (AList.update k' v al) \<Longrightarrow> (k, r) = (k', v) \<or> (k, r) \<in> set al"
  by (induction al) (auto split: if_splits)

lemma foldl_loopBody_provenance:
  "(k, r) \<in> set (foldl (loopBody fmt p g i t) res chs) \<Longrightarrow>
     (k, r) \<in> set res \<or> (\<exists>ch\<in>set chs. channel ch = k \<and> emitted fmt p g i t ch = Some r)"
proof (induction chs arbitrary: res)
  case Nil
  then show ?case by simp
next
  case (Cons c cs)
  from Cons.prems have "(k, r) \<in> set (foldl (loopBody fmt p g i t) (loopBody fmt p g i t res c) cs)"
    by simp
  from Cons.IH [OF this] show ?case
  proof
    assume in_step: "(k, r) \<in> set (loopBody fmt p g i t res c)"
    show ?thesis
    proof (cases "emitted fmt p g i t c")
      case None
      with in_step show ?thesis by (simp add: loopBody_emitted)
    next
      case (Some r')
      with in_step have "(k, r) \<in> set (AList.update (channel c) r' res)"
        by (simp add: loopBody_emitted)
      then have "(k, r) = (channel c, r') \<or> (k, r) \<in> set res"
        by (rule set_update_cases)
      with Some show ?thesis by auto
    qed
  next
    assume "\<exists>ch\<in>set cs. channel ch = k \<and> emitted fmt p g i t ch = Some r"
    then show ?thesis by auto
  qed
qed

lemma foldl_loopBody_distinct:
  "distinct (map fst res) \<Longrightarrow> distinct (map fst (foldl (loopBody fmt p g i t) res chs))"
proof (induction chs arbitrary: res)
  case Nil
  then show ?case by simp
next
  case (Cons c cs)
  have "distinct (map fst (loopBody fmt p g i t res c))"
    using Cons.prems by (simp add: loopBody_emitted distinct_update split: option.split)
  from Cons.IH [OF this] show ?case by simp
qed

lemma loopBody_other:
  "k \<noteq> channel ch \<Longrightarrow> map_of (loopBody fmt p g i t res ch) k = map_of res k"
  by (simp add: loopBody_emitted update_conv' split: option.split)

lemma loopBody_same:
  "map_of (loopBody fmt p g i t res ch) (channel ch) =
     (case emitted fmt p g i t ch of None \<Rightarrow> map_of res (channel ch) | Some r \<Rightarrow> Some r)"
  by (simp add: loopBody_emitted update_conv' split: option.split)

lemma foldl_loopBody_other:
  "k \<notin> channel ` set chs \<Longrightarrow> map_of (foldl (loopBody fmt p g i t) res chs) k = map_of res k"
  by (induction chs arbitrary: res) (auto simp: loopBody_other)

lemma foldl_loopBody_lookup:
  "distinct (map channel chs) \<Longrightarrow> ch \<in> set chs \<Longrightarrow>
   map_of (foldl (loopBody fmt p g i t) res chs) (channel ch) =
     (case emitted fmt p g i t ch of None \<Rightarrow> map_of res (channel ch) | Some r \<Rightarrow> Some r)"
proof (induction chs arbitrary: res)
  case Nil
  then show ?case by simp
next
  case (Cons c cs)
  show ?case
  proof (cases "ch = c")
    case True
    with Cons.prems have "channel ch \<notin> channel ` set cs" by auto
    then have "map_of (foldl (loopBody fmt p g i t) (loopBody fmt p g i t res c) cs) (channel ch)
        = map_of (loopBody fmt p g i t res c) (channel ch)"
      by (rule foldl_loopBody_other)
    then show ?thesis using True by (simp add: loopBody_same split: option.split)
  next
    case False
    with Cons.prems have in_cs: "ch \<in> set cs" and d: "distinct (map channel cs)"
      and fresh: "channel c \<notin> channel ` set cs" by auto
    from in_cs have "channel ch \<in> channel ` set cs" by simp
    with fresh have ne: "channel ch \<noteq> channel c" by metis
    have "map_of (loopBody fmt p g i t res c) (channel ch) = map_of res (channel ch)"
      using ne by (rule loopBody_other)
    then show ?thesis
      using Cons.IH [OF d in_cs, of "loopBody fmt p g i t res c"]
      by (simp split: option.split)
  qed
qed


lemma runOptimization_lookup:
  assumes "distinct (map channel chs)" and "ch \<in> set chs"
  shows "map_of (runOptimization fmt chs intensity threshold) (channel ch) =
     emitted fmt (getProtectedChannels chs threshold) (gapThreshold intensity)
       (indexThreshold intensity) threshold ch"
  unfolding runOptimization_def Let_def
  by (simp add: foldl_loopBody_lookup [OF assms] split: option.split)

subsection \<open>The cutoffs of the examples\<close>

lemma roundDouble_7_10: "roundDouble (7 / 10) = 6305039478318694 / 2 ^ 53"
  by (subst roundDouble_frac [where j = 53]) (simp_all add: roundHalfEven_def Let_def)

lemma roundDouble_19_20: "roundDouble (19 / 20) = 8556839292003942 / 2 ^ 53"
  by (subst roundDouble_frac [where j = 53]) (simp_all add: roundHalfEven_def Let_def)

lemma roundDouble_1_2: "roundDouble (1 / 2) = 1 / 2"
  by (subst roundDouble_frac [where j = 53]) (simp_all add: roundHalfEven_def Let_def)



lemma cutoff_1_70: "roundDouble (roundDouble (7 / 10)) = 6305039478318694 / 2 ^ 53"
  unfolding roundDouble_7_10
  by (subst roundDouble_frac [where j = 53]) (simp_all add: roundHalfEven_def Let_def)

lemma cutoff_1_95: "roundDouble (roundDouble (19 / 20)) = 8556839292003942 / 2 ^ 53"
  unfolding roundDouble_19_20
  by (subst roundDouble_frac [where j = 53]) (simp_all add: roundHalfEven_def Let_def)

lemma cutoff_5_70: "roundDouble (5 * roundDouble (7 / 10)) = 7 / 2"
  unfolding roundDouble_7_10
  by (subst roundDouble_frac [where j = 51]) (simp_all add: roundHalfEven_def Let_def)

lemma cutoff_5_50: "roundDouble (5 * roundDouble (1 / 2)) = 5 / 2"
  unfolding roundDouble_1_2
  by (subst roundDouble_frac [where j = 51]) (simp_all add: roundHalfEven_def Let_def)

lemma cutoff_6_50: "roundDouble (6 * roundDouble (1 / 2)) = 3"
  unfolding roundDouble_1_2
  by (subst roundDouble_frac [where j = 51]) (simp_all add: roundHalfEven_def Let_def)

lemma cutoff_5_100: "roundDouble 5 = 5"
  using roundDouble_nat [of 5] by simp




lemmas cutoff_simps = cutoff_1_70 cutoff_1_95 cutoff_5_70 cutoff_5_50 cutoff_6_50 cutoff_5_100


lemmas run_simps = runOptimization_def getProtectedChannels_def sortBy_def slice_def loopBody_def
  gapThreshold_def indexThreshold_def exampleChannel_def exampleFormat_def Let_def cutoff_simps

subsection \<open>Invocations in a heap\<close>

lemma insertBy_key:
  "insertBy (\<lambda>a b. key b - key a) x ys = insort_key (\<lambda>c. - key c) x ys"
  by (induction ys) auto

lemma sortBy_key:
  "sortBy (\<lambda>a b. key b - key a) xs = sort_key (\<lambda>c. - key c) xs"
  unfolding sortBy_def sort_key_def
  by (induction xs) (auto simp: insertBy_key)

lemma stable_sort_unique:
  fixes key :: "'a \<Rightarrow> real"
  assumes "mset ys = mset xs"
    and "sorted_wrt (\<lambda>a b. key b \<le> key a) ys"
    and "\<forall>v. filter (\<lambda>c. key c = v) ys = filter (\<lambda>c. key c = v) xs"
  shows "ys = sort_key (\<lambda>c. - key c) xs"
proof -
  have "sort_key (\<lambda>c. - key c) xs = ys"
  proof (rule properties_for_sort_key)
    show "mset ys = mset xs" by fact
    show "sorted (map (\<lambda>c. - key c) ys)"
      using assms(2) by (simp add: sorted_map)
    fix k
    have "filter (\<lambda>c. key c = key k) ys = filter (\<lambda>c. key c = key k) xs"
      using assms(3) by blast
    then show "filter (\<lambda>x. - key k = - key x) ys = filter (\<lambda>x. - key k = - key x) xs"
      by (simp add: eq_commute [of "key k"])
  qed
  then show ?thesis by simp
qed

lemma stableSort_sortBy: "stableSort sortBy"
  unfolding stableSort_def sortBy_key
proof (intro allI conjI)
  fix key :: "ChannelRecord \<Rightarrow> real" and xs :: "ChannelRecord list" and v :: real
  show "mset (sort_key (\<lambda>c. - key c) xs) = mset xs" by simp
  have "sorted (map (\<lambda>c. - key c) (sort_key (\<lambda>c. - key c) xs))"
    by (rule sorted_sort_key)
  then show "sorted_wrt (\<lambda>a b. key b \<le> key a) (sort_key (\<lambda>c. - key c) xs)"
    by (simp add: sorted_map)
  show "filter (\<lambda>c. key c = v) (sort_key (\<lambda>c. - key c) xs) = filter (\<lambda>c. key c = v) xs"
    using sort_key_stable [of "\<lambda>c. - key c" "- v" xs] by simp
qed

lemma stableSort_is_sortBy:
  assumes "stableSort srt"
  shows "srt (\<lambda>a b. key b - key a) xs = sortBy (\<lambda>a b. key b - key a) xs"
proof -
  from assms have "mset (srt (\<lambda>a b. key b - key a) xs) = mset xs"
    and "sorted_wrt (\<lambda>a b. key b \<le> key a) (srt (\<lambda>a b. key b - key a) xs)"
    and "\<forall>v. filter (\<lambda>c. key c = v) (srt (\<lambda>a b. key b - key a) xs) = filter (\<lambda>c. key c = v) xs"
    unfolding stableSort_def by blast+
  then have "srt (\<lambda>a b. key b - key a) xs = sort_key (\<lambda>c. - key c) xs"
    by (rule stable_sort_unique)
  then show ?thesis by (simp add: sortBy_key)
qed

lemma invokeGetProtectedChannels_pure:
  assumes "stableSort srt" and "channels < fresh h"
  shows "fst (invokeGetProtectedChannels srt channels threshold h) =
           getProtectedChannels (arrays h channels) threshold"
    and "\<forall>a<fresh h. arrays (snd (invokeGetProtectedChannels srt channels threshold h)) a = arrays h a"
    and "fresh h \<le> fresh (snd (invokeGetProtectedChannels srt channels threshold h))"
  unfolding invokeGetProtectedChannels_def getProtectedChannels_def newArray_def sortInPlace_def
  by (simp_all add: Let_def stableSort_is_sortBy [OF assms(1)])

lemma invokeRunOptimization_pure:
  assumes "stableSort srt" and "channels < fresh h"
  shows "fst (invokeRunOptimization srt fmt channels intensity threshold h) =
           runOptimization fmt (arrays h channels) intensity threshold"
    and "\<forall>a<fresh h. arrays (snd (invokeRunOptimization srt fmt channels intensity threshold h)) a
           = arrays h a"
    and "fresh h \<le> fresh (snd (invokeRunOptimization srt fmt channels intensity threshold h))"
  using invokeGetProtectedChannels_pure [OF assms, of threshold] assms(2)
  unfolding invokeRunOptimization_def runOptimization_def
  by (simp_all add: Let_def split_beta)

lemma set_insertBehind: "set (insertBehind cmp x ys) = insert x (set ys)"
  by (induction ys) auto

lemma mset_insertBehind: "mset (insertBehind cmp x ys) = add_mset x (mset ys)"
  by (induction ys) auto

lemma sorted_insertBehind:
  fixes key :: "'a \<Rightarrow> real"
  assumes "sorted_wrt (\<lambda>a b. key b \<le> key a) ys"
  shows "sorted_wrt (\<lambda>a b. key b \<le> key a) (insertBehind (\<lambda>a b. key b - key a) x ys)"
  using assms by (induction ys) (auto simp: set_insertBehind intro: order_trans)

lemma filter_insertBehind:
  fixes key :: "'a \<Rightarrow> real"
  assumes "sorted_wrt (\<lambda>a b. key b \<le> key a) ys"
  shows "filter (\<lambda>c. key c = v) (insertBehind (\<lambda>a b. key b - key a) x ys)
       = filter (\<lambda>c. key c = v) ys @ (if key x = v then [x] else [])"
  using assms
proof (induction ys)
  case Nil
  then show ?case by simp
next
  case (Cons y ys)
  show ?case
  proof (cases "key x - key y \<le> 0")
    case True
    with Cons show ?thesis by simp
  next
    case False
    then have "key y < key x" by simp
    moreover have "\<forall>z\<in>set ys. key z \<le> key y" using Cons.prems by simp
    ultimately have "\<forall>z\<in>set (y # ys). key z \<noteq> key x" by auto
    then have "key x = v \<Longrightarrow> filter (\<lambda>c. key c = v) (y # ys) = []"
      by (auto simp: filter_empty_conv)
    with False show ?thesis by auto
  qed
qed

lemma foldl_insertBehind:
  fixes key :: "'a \<Rightarrow> real"
  assumes "sorted_wrt (\<lambda>a b. key b \<le> key a) acc"
  shows "mset (foldl (\<lambda>acc x. insertBehind (\<lambda>a b. key b - key a) x acc) acc xs) = mset acc + mset xs
       \<and> sorted_wrt (\<lambda>a b. key b \<le> key a)
           (foldl (\<lambda>acc x. insertBehind (\<lambda>a b. key b - key a) x acc) acc xs)
       \<and> (\<forall>v. filter (\<lambda>c. key c = v) (foldl (\<lambda>acc x. insertBehind (\<lambda>a b. key b - key a) x acc) acc xs)
              = filter (\<lambda>c. key c = v) acc @ filter (\<lambda>c. key c = v) xs)"
  using assms
proof (induction xs arbitrary: acc)
  case Nil
  then show ?case by simp
next
  case (Cons x xs)
  have s: "sorted_wrt (\<lambda>a b. key b \<le> key a) (insertBehind (\<lambda>a b. key b - key a) x acc)"
    using Cons.prems by (rule sorted_insertBehind)
  from Cons.IH [OF s] show ?case
    by (simp add: mset_insertBehind filter_insertBehind [OF Cons.prems])
qed

lemma stableSort_sortForward: "stableSort sortForward"
  unfolding stableSort_def sortForward_def
proof (intro allI)
  fix key :: "ChannelRecord \<Rightarrow> real" and xs :: "ChannelRecord list"
  show "mset (foldl (\<lambda>acc x. insertBehind (\<lambda>a b. key b - key a) x acc) [] xs) = mset xs
      \<and> sorted_wrt (\<lambda>a b. key b \<le> key a)
          (foldl (\<lambda>acc x. insertBehind (\<lambda>a b. key b - key a) x acc) [] xs)
      \<and> (\<forall>v. filter (\<lambda>c. key c = v) (foldl (\<lambda>acc x. insertBehind (\<lambda>a b. key b - key a) x acc) [] xs)
             = filter (\<lambda>c. key c = v) xs)"
    using foldl_insertBehind [of key "[]" xs] by simp
qed

section \<open>The status classifier\<close>

text \<open>
  Claim C1. \<^verbatim>\<open>calculateStatus\<close> follows the decision table in priority order: both
  reaches zero gives INACTIVE; otherwise no Santoor reach with competitor reach at least
  2.0 and share at least 1.0 gives OPPORTUNITY; otherwise no Santoor reach with positive
  competitor reach gives INACTIVE; otherwise positive Santoor reach without competitor
  reach gives MONOPOLY; every other record is bucketed by its index: DOMINANT from 150,
  LEADING from 100, CLOSE from 80, BEHIND from 50, CRITICAL below. The boundaries 150,
  100, 80 and 50 themselves belong to the upper bucket.
\<close>

theorem calculateStatus_decision_table:
  fixes ch :: ChannelRecord
  defines "s \<equiv> santoorReach ch" and "m \<equiv> maxCompReach ch"
    and "i \<equiv> indexVsCompetition ch"
  defines "b1 \<equiv> s = 0 \<and> m = 0"
    and "b2 \<equiv> s = 0 \<and> m \<ge> 2 \<and> channelShare ch \<ge> 1"
    and "b3 \<equiv> s = 0 \<and> m > 0"
    and "b4 \<equiv> s > 0 \<and> m = 0"
  shows "(b1 \<longrightarrow> calculateStatus ch = INACTIVE)
       \<and> (\<not> b1 \<and> b2 \<longrightarrow> calculateStatus ch = OPPORTUNITY)
       \<and> (\<not> b1 \<and> \<not> b2 \<and> b3 \<longrightarrow> calculateStatus ch = INACTIVE)
       \<and> (\<not> b1 \<and> \<not> b2 \<and> \<not> b3 \<and> b4 \<longrightarrow> calculateStatus ch = MONOPOLY)
       \<and> (\<not> b1 \<and> \<not> b2 \<and> \<not> b3 \<and> \<not> b4 \<longrightarrow>
            (i \<ge> 150 \<longrightarrow> calculateStatus ch = DOMINANT)
          \<and> (i = 150 \<longrightarrow> calculateStatus ch = DOMINANT)
          \<and> (100 \<le> i \<and> i < 150 \<longrightarrow> calculateStatus ch = LEADING)
          \<and> (i = 100 \<longrightarrow> calculateStatus ch = LEADING)
          \<and> (80 \<le> i \<and> i < 100 \<longrightarrow> calculateStatus ch = CLOSE)
          \<and> (i = 80 \<longrightarrow> calculateStatus ch = CLOSE)
          \<and> (50 \<le> i \<and> i < 80 \<longrightarrow> calculateStatus ch = BEHIND)
          \<and> (i = 50 \<longrightarrow> calculateStatus ch = BEHIND)
          \<and> (i < 50 \<longrightarrow> calculateStatus ch = CRITICAL))"
  unfolding b1_def b2_def b3_def b4_def s_def m_def i_def calculateStatus_def
  by auto

theorem calculateStatus_decision_table_witness:
  "calculateStatus (exampleChannel ''A'' 0 0 0 0 0) = INACTIVE
   \<and> calculateStatus (exampleChannel ''B'' 0 2 (-2) 1 0) = OPPORTUNITY
   \<and> calculateStatus (exampleChannel ''C'' 0 2 (-2) 0.5 0) = INACTIVE
   \<and> calculateStatus (exampleChannel ''D'' 10 0 10 2 0) = MONOPOLY
   \<and> calculateStatus (exampleChannel ''E'' 6 4 2 2 150) = DOMINANT
   \<and> calculateStatus (exampleChannel ''F'' 4 4 0 2 100) = LEADING
   \<and> calculateStatus (exampleChannel ''G'' 4 5 (-1) 2 80) = CLOSE
   \<and> calculateStatus (exampleChannel ''H'' 2 4 (-2) 2 50) = BEHIND
   \<and> calculateStatus (exampleChannel ''I'' 1 4 (-3) 2 25) = CRITICAL"
  using calculateStatus_decision_table [of "exampleChannel ''A'' 0 0 0 0 0"]
    calculateStatus_decision_table [of "exampleChannel ''B'' 0 2 (-2) 1 0"]
    calculateStatus_decision_table [of "exampleChannel ''C'' 0 2 (-2) 0.5 0"]
    calculateStatus_decision_table [of "exampleChannel ''D'' 10 0 10 2 0"]
    calculateStatus_decision_table [of "exampleChannel ''E'' 6 4 2 2 150"]
    calculateStatus_decision_table [of "exampleChannel ''F'' 4 4 0 2 100"]
    calculateStatus_decision_table [of "exampleChannel ''G'' 4 5 (-1) 2 80"]
    calculateStatus_decision_table [of "exampleChannel ''H'' 2 4 (-2) 2 50"]
    calculateStatus_decision_table [of "exampleChannel ''I'' 1 4 (-3) 2 25"]
  by (simp add: exampleChannel_def)

section \<open>The result map\<close>

text \<open>
  Claim C2. For every record list, intensity and threshold, the map that
  \<^verbatim>\<open>runOptimization\<close> returns has at most one entry per channel name, and no entry comes
  from a record with \<^verbatim>\<open>santoorReach == 0\<close> and \<^verbatim>\<open>maxCompReach == 0\<close>: every entry is
  stored under the name of a record of the input that is not of this kind, and, channel
  names being unique keys, a record of this kind has no entry under its name.
\<close>

theorem runOptimization_entries:
  "distinct (map fst (runOptimization fmt chs intensity threshold))
   \<and> (\<forall>(k, r) \<in> set (runOptimization fmt chs intensity threshold).
         \<exists>ch\<in>set chs. channel ch = k \<and> \<not> (santoorReach ch = 0 \<and> maxCompReach ch = 0))
   \<and> (distinct (map channel chs) \<longrightarrow>
        (\<forall>ch\<in>set chs. santoorReach ch = 0 \<and> maxCompReach ch = 0 \<longrightarrow>
           map_of (runOptimization fmt chs intensity threshold) (channel ch) = None))"
proof (intro conjI impI ballI)
  show "distinct (map fst (runOptimization fmt chs intensity threshold))"
    unfolding runOptimization_def Let_def by (rule foldl_loopBody_distinct) simp
next
  fix e assume mem: "e \<in> set (runOptimization fmt chs intensity threshold)"
  obtain k r where e: "e = (k, r)" by (cases e)
  from mem e have "(k, r) \<in> set (foldl (loopBody fmt (getProtectedChannels chs threshold)
            (gapThreshold intensity) (indexThreshold intensity) threshold) [] chs)"
    unfolding runOptimization_def Let_def by simp
  from foldl_loopBody_provenance [OF this]
  obtain ch where "ch \<in> set chs" "channel ch = k"
    "emitted fmt (getProtectedChannels chs threshold)
       (gapThreshold intensity) (indexThreshold intensity) threshold ch = Some r"
    by auto
  with emitted_cases [OF this(3)] e
  show "case e of (k, r) \<Rightarrow>
         \<exists>ch\<in>set chs. channel ch = k \<and> \<not> (santoorReach ch = 0 \<and> maxCompReach ch = 0)"
    by auto
next
  fix ch
  assume d: "distinct (map channel chs)" and m: "ch \<in> set chs"
    and z: "santoorReach ch = 0 \<and> maxCompReach ch = 0"
  have "emitted fmt (getProtectedChannels chs threshold)
       (gapThreshold intensity) (indexThreshold intensity) threshold ch = None"
    using z by (simp add: emitted_def loopBody_def)
  then show "map_of (runOptimization fmt chs intensity threshold) (channel ch) = None"
    unfolding runOptimization_def Let_def
    by (simp add: foldl_loopBody_lookup [OF d m])
qed

theorem runOptimization_entries_witness:
  "distinct (map channel [exampleChannel ''A'' 0 0 0 2 0, exampleChannel ''B'' 4 8 (-4) 2 50])
   \<and> santoorReach (exampleChannel ''A'' 0 0 0 2 0) = 0
   \<and> maxCompReach (exampleChannel ''A'' 0 0 0 2 0) = 0
   \<and> map fst (runOptimization exampleFormat
        [exampleChannel ''A'' 0 0 0 2 0, exampleChannel ''B'' 4 8 (-4) 2 50] 15 70) = [''B'']
   \<and> map_of (runOptimization exampleFormat
        [exampleChannel ''A'' 0 0 0 2 0, exampleChannel ''B'' 4 8 (-4) 2 50] 15 70) ''A'' = None"
  using runOptimization_entries [of exampleFormat
      "[exampleChannel ''A'' 0 0 0 2 0, exampleChannel ''B'' 4 8 (-4) 2 50]" 15 70]
  by (simp add: run_simps)

text \<open>
  Claim C5. For every record list, intensity and threshold, no entry of the returned map
  has the recommendation DECREASE: a record that reaches the DECREASE test has an index
  below 100, and the test asks for an index above 120.
\<close>

theorem runOptimization_never_decrease:
  "DECREASE \<notin> recommendation ` snd ` set (runOptimization fmt chs intensity threshold)"
proof
  assume "DECREASE \<in> recommendation ` snd ` set (runOptimization fmt chs intensity threshold)"
  then obtain k r where "(k, r) \<in> set (runOptimization fmt chs intensity threshold)"
    and dec: "recommendation r = DECREASE"
    by auto
  then have "(k, r) \<in> set (foldl (loopBody fmt (getProtectedChannels chs threshold)
            (gapThreshold intensity) (indexThreshold intensity) threshold) [] chs)"
    unfolding runOptimization_def Let_def by simp
  from foldl_loopBody_provenance [OF this]
  obtain ch where
    "emitted fmt (getProtectedChannels chs threshold)
       (gapThreshold intensity) (indexThreshold intensity) threshold ch = Some r"
    by auto
  from emitted_cases [OF this] dec show False by simp
qed

theorem runOptimization_never_decrease_witness:
  "''R'' \<notin> set (getProtectedChannels (exampleChannel ''R'' 1 0.5 0.5 1 200 # exampleList) 50)
   \<and> map_option recommendation
        (map_of (runOptimization exampleFormat (exampleChannel ''R'' 1 0.5 0.5 1 200 # exampleList) 15 50) ''R'')
      = Some MAINTAIN
   \<and> DECREASE \<notin> recommendation ` snd `
        set (runOptimization exampleFormat (exampleChannel ''R'' 1 0.5 0.5 1 200 # exampleList) 15 50)"
  using runOptimization_never_decrease
    [of exampleFormat "exampleChannel ''R'' 1 0.5 0.5 1 200 # exampleList" 15 50]
  by (simp add: run_simps exampleList_def)

section \<open>The protected set\<close>







section \<open>Scenarios\<close>

text \<open>
  Claim C4, as amended. A record with \<^verbatim>\<open>santoorReach 0\<close>, \<^verbatim>\<open>maxCompReach 3\<close> and
  \<^verbatim>\<open>channelShare 2\<close> has the status OPPORTUNITY, and \<^verbatim>\<open>runOptimization\<close> stores the
  recommendation ADD for it with the priority LOW: the priority is HIGH above 5, MEDIUM
  above 3 and LOW otherwise, and 3 is not above 3. (Channel names are unique keys.)
\<close>

theorem scenario_A_add_low:
  assumes "santoorReach ch = 0" and "maxCompReach ch = 3" and "channelShare ch = 2"
    and "ch \<in> set chs" and "distinct (map channel chs)"
  shows "calculateStatus ch = OPPORTUNITY
       \<and> map_of (runOptimization fmt chs intensity threshold) (channel ch) =
           Some \<lparr>channel_r = channel ch, recommendation = ADD, priority = LOW,
                 reason = ''Competitor at '' @ toFixed fmt 1 3 @ ''%, Share '' @ toFixed fmt 1 2 @ ''%''\<rparr>"
  using assms(1-3)
  by (simp add: runOptimization_lookup [OF assms(5) assms(4)] calculateStatus_def emitted_def
      loopBody_def)

theorem scenario_A_add_low_witness:
  "santoorReach (exampleChannel ''X'' 0 3 (-3) 2 0) = 0
   \<and> maxCompReach (exampleChannel ''X'' 0 3 (-3) 2 0) = 3
   \<and> channelShare (exampleChannel ''X'' 0 3 (-3) 2 0) = 2
   \<and> exampleChannel ''X'' 0 3 (-3) 2 0 \<in> set (exampleChannel ''X'' 0 3 (-3) 2 0 # exampleList)
   \<and> distinct (map channel (exampleChannel ''X'' 0 3 (-3) 2 0 # exampleList))
   \<and> calculateStatus (exampleChannel ''X'' 0 3 (-3) 2 0) = OPPORTUNITY
   \<and> map_of (runOptimization exampleFormat (exampleChannel ''X'' 0 3 (-3) 2 0 # exampleList) 15 70) ''X'' =
       Some \<lparr>channel_r = ''X'', recommendation = ADD, priority = LOW,
             reason = ''Competitor at #%, Share #%''\<rparr>"
proof -
  let ?x = "exampleChannel ''X'' 0 3 (-3) 2 0"
  have h: "santoorReach ?x = 0" "maxCompReach ?x = 3" "channelShare ?x = 2"
    "?x \<in> set (?x # exampleList)" "distinct (map channel (?x # exampleList))"
    by (simp_all add: exampleChannel_def exampleList_def)
  show ?thesis
    using h scenario_A_add_low [OF h, of exampleFormat 15 70]
    by (simp add: exampleChannel_def exampleFormat_def)
qed

text \<open>The record of the scenario on its own: ADD with priority LOW, not MEDIUM.\<close>

theorem scenario_A_priority_counterexample:
  "calculateStatus (exampleChannel ''X'' 0 3 (-3) 2 0) = OPPORTUNITY
   \<and> map_option recommendation
       (map_of (runOptimization exampleFormat [exampleChannel ''X'' 0 3 (-3) 2 0] 15 70) ''X'') = Some ADD
   \<and> map_option priority
       (map_of (runOptimization exampleFormat [exampleChannel ''X'' 0 3 (-3) 2 0] 15 70) ''X'') = Some LOW
   \<and> map_option priority
       (map_of (runOptimization exampleFormat [exampleChannel ''X'' 0 3 (-3) 2 0] 15 70) ''X'') \<noteq> Some MEDIUM"
  by (simp add: run_simps calculateStatus_def)

text \<open>
  Claim C9. At intensity 15 the cutoffs are \<open>gapThreshold = -2\<close> and
  \<open>indexThreshold = 80\<close>, and for a record that is not protected, with
  \<^verbatim>\<open>santoorReach 5\<close>, \<^verbatim>\<open>gap -6\<close> and \<^verbatim>\<open>indexVsCompetition 60\<close>, \<^verbatim>\<open>runOptimization\<close>
  stores the recommendation INCREASE with the priority HIGH, the gap being below -5.
  (Channel names are unique keys.)
\<close>

theorem scenario_B_increase_high:
  assumes "santoorReach ch = 5" and "gap ch = -6" and "indexVsCompetition ch = 60"
    and "ch \<in> set chs" and "distinct (map channel chs)"
    and "channel ch \<notin> set (getProtectedChannels chs threshold)"
  shows "gapThreshold 15 = -2 \<and> indexThreshold 15 = 80
       \<and> map_of (runOptimization fmt chs 15 threshold) (channel ch) =
           Some \<lparr>channel_r = channel ch, recommendation = INCREASE, priority = HIGH,
                 reason = ''Gap of '' @ toFixed fmt 1 (-6) @ '' pts, Index '' @ toFixed fmt 0 60\<rparr>"
  using assms(1-3)
  by (simp add: runOptimization_lookup [OF assms(5) assms(4)] emitted_def loopBody_def
      gapThreshold_def indexThreshold_def)

theorem scenario_B_increase_high_witness:
  "santoorReach (exampleChannel ''X'' 5 11 (-6) 2 60) = 5
   \<and> gap (exampleChannel ''X'' 5 11 (-6) 2 60) = -6
   \<and> indexVsCompetition (exampleChannel ''X'' 5 11 (-6) 2 60) = 60
   \<and> exampleChannel ''X'' 5 11 (-6) 2 60 \<in> set (exampleChannel ''X'' 5 11 (-6) 2 60 # exampleList)
   \<and> distinct (map channel (exampleChannel ''X'' 5 11 (-6) 2 60 # exampleList))
   \<and> ''X'' \<notin> set (getProtectedChannels (exampleChannel ''X'' 5 11 (-6) 2 60 # exampleList) 50)
   \<and> map_of (runOptimization exampleFormat (exampleChannel ''X'' 5 11 (-6) 2 60 # exampleList) 15 50) ''X'' =
       Some \<lparr>channel_r = ''X'', recommendation = INCREASE, priority = HIGH,
             reason = ''Gap of # pts, Index #''\<rparr>"
proof -
  let ?x = "exampleChannel ''X'' 5 11 (-6) 2 60"
  have h: "santoorReach ?x = 5" "gap ?x = -6" "indexVsCompetition ?x = 60"
    "?x \<in> set (?x # exampleList)" "distinct (map channel (?x # exampleList))"
    by (simp_all add: exampleChannel_def exampleList_def)
  have p: "getProtectedChannels (?x # exampleList) 50 = [''B'', ''F'', ''E'']"
    by (simp add: run_simps exampleList_def)
  then have np: "channel ?x \<notin> set (getProtectedChannels (?x # exampleList) 50)"
    by (simp add: exampleChannel_def)
  show ?thesis
    using h p scenario_B_increase_high [OF h np, of exampleFormat]
    by (simp add: exampleChannel_def exampleFormat_def)
qed

text \<open>
  Claim C3. A protected record with \<^verbatim>\<open>indexVsCompetition 40\<close> is to get MAINTAIN with a
  reason that mentions "protected", whatever its gap. The source tests the gap and the
  index for INCREASE before it looks at \<^verbatim>\<open>isProtected\<close>, although the comment over that
  test reads "if not protected and gap is significant": the only record of a list is
  protected at threshold 70, and with index 40 and gap -7.5 it is given INCREASE with
  priority HIGH at intensity 15.
\<close>

theorem protected_channel_gets_increase:
  "indexVsCompetition (exampleChannel ''P'' 5 12.5 (-7.5) 2 40) = 40
   \<and> ''P'' \<in> set (getProtectedChannels [exampleChannel ''P'' 5 12.5 (-7.5) 2 40] 70)
   \<and> map_of (runOptimization fmt [exampleChannel ''P'' 5 12.5 (-7.5) 2 40] 15 70) ''P'' =
       Some \<lparr>channel_r = ''P'', recommendation = INCREASE, priority = HIGH,
             reason = ''Gap of '' @ toFixed fmt 1 (-7.5) @ '' pts, Index '' @ toFixed fmt 0 40\<rparr>"
  by (simp add: run_simps)

section \<open>Intensity and threshold out of range\<close>

text \<open>
  Claim C6, as amended. \<^verbatim>\<open>runOptimization\<close> returns a map for every intensity and
  threshold. An intensity below 5 has the cutoffs of the lowest tier
  (\<open>gapThreshold = -3\<close>, \<open>indexThreshold = 70\<close>) and gives the result of intensity 5; an
  intensity above 30 has the cutoffs of the highest tier (\<open>gapThreshold = -1\<close>,
  \<open>indexThreshold = 90\<close>) and gives the result of intensity 30. The threshold has no part
  in the cutoffs.
\<close>

theorem intensity_out_of_range_tiers:
  "(intensity < 5 \<longrightarrow>
      gapThreshold intensity = -3 \<and> indexThreshold intensity = 70
      \<and> runOptimization fmt chs intensity threshold = runOptimization fmt chs 5 threshold)
   \<and> (30 < intensity \<longrightarrow>
      gapThreshold intensity = -1 \<and> indexThreshold intensity = 90
      \<and> runOptimization fmt chs intensity threshold = runOptimization fmt chs 30 threshold)"
  by (simp add: runOptimization_def gapThreshold_def indexThreshold_def)

theorem intensity_out_of_range_tiers_witness:
  "(0::real) < 5 \<and> gapThreshold 0 = -3 \<and> indexThreshold 0 = 70
   \<and> runOptimization exampleFormat exampleList 0 95 = runOptimization exampleFormat exampleList 5 95
   \<and> (30::real) < 35 \<and> gapThreshold 35 = -1 \<and> indexThreshold 35 = 90
   \<and> runOptimization exampleFormat exampleList 35 95 = runOptimization exampleFormat exampleList 30 95"
  using intensity_out_of_range_tiers [of 0 exampleFormat exampleList 95]
    intensity_out_of_range_tiers [of 35 exampleFormat exampleList 95]
  by simp

text \<open>
  Intensity 35 and threshold 95, both out of range: the cutoffs are -1 and 90, not -3
  and 70, and a record with gap -1.5 and index 85 is given INCREASE, where the lowest
  tier gives MAINTAIN.
\<close>

theorem intensity_above_range_counterexample:
  "gapThreshold 35 = -1 \<and> indexThreshold 35 = 90
   \<and> gapThreshold 35 \<noteq> -3 \<and> indexThreshold 35 \<noteq> 70
   \<and> map_option recommendation
       (map_of (runOptimization exampleFormat [exampleChannel ''Q'' 4 5.5 (-1.5) 2 85] 35 95) ''Q'') = Some INCREASE
   \<and> map_option recommendation
       (map_of (runOptimization exampleFormat [exampleChannel ''Q'' 4 5.5 (-1.5) 2 85] 5 95) ''Q'') = Some MAINTAIN"
  by (simp add: run_simps)

section \<open>Determinism\<close>

text \<open>
  Claim C10. Two invocations of \<^verbatim>\<open>runOptimization\<close> with identical record lists,
  identical intensity and identical threshold return equal maps: the same keys, and the
  same entry under every key. The two invocations may run in different heaps and on
  engines with different sorting algorithms, as long as each sort is stable as the
  language requires; the record lists may be one array or two arrays with the same
  contents. In particular a second
  invocation on the same array, in the heap that the first has left, returns the map of the
  first, since an invocation changes no array that existed before it.
\<close>

theorem runOptimization_deterministic:
  assumes "stableSort srt1" and "stableSort srt2"
    and "channels1 < fresh ha" and "channels2 < fresh hb"
    and "arrays ha channels1 = arrays hb channels2"
    and "intensity1 = intensity2" and "threshold1 = threshold2"
  shows "fst (invokeRunOptimization srt1 fmt channels1 intensity1 threshold1 ha)
           = fst (invokeRunOptimization srt2 fmt channels2 intensity2 threshold2 hb)
       \<and> fst ` set (fst (invokeRunOptimization srt1 fmt channels1 intensity1 threshold1 ha))
           = fst ` set (fst (invokeRunOptimization srt2 fmt channels2 intensity2 threshold2 hb))
       \<and> (\<forall>k. map_of (fst (invokeRunOptimization srt1 fmt channels1 intensity1 threshold1 ha)) k
              = map_of (fst (invokeRunOptimization srt2 fmt channels2 intensity2 threshold2 hb)) k)
       \<and> fst (invokeRunOptimization srt2 fmt channels1 intensity2 threshold2
                (snd (invokeRunOptimization srt1 fmt channels1 intensity1 threshold1 ha)))
           = fst (invokeRunOptimization srt1 fmt channels1 intensity1 threshold1 ha)
       \<and> (\<forall>a<fresh ha.
             arrays (snd (invokeRunOptimization srt1 fmt channels1 intensity1 threshold1 ha)) a
               = arrays ha a)"
proof -
  let ?h1 = "snd (invokeRunOptimization srt1 fmt channels1 intensity1 threshold1 ha)"
  have first: "fst (invokeRunOptimization srt1 fmt channels1 intensity1 threshold1 ha)
      = runOptimization fmt (arrays ha channels1) intensity1 threshold1"
    by (rule invokeRunOptimization_pure(1) [OF assms(1,3)])
  have other: "fst (invokeRunOptimization srt2 fmt channels2 intensity2 threshold2 hb)
      = runOptimization fmt (arrays hb channels2) intensity2 threshold2"
    by (rule invokeRunOptimization_pure(1) [OF assms(2,4)])
  have frame: "\<forall>a<fresh ha. arrays ?h1 a = arrays ha a"
    by (rule invokeRunOptimization_pure(2) [OF assms(1,3)])
  have "fresh ha \<le> fresh ?h1"
    by (rule invokeRunOptimization_pure(3) [OF assms(1,3)])
  with assms(3) have alive: "channels1 < fresh ?h1" by simp
  have "fst (invokeRunOptimization srt2 fmt channels1 intensity2 threshold2 ?h1)
      = runOptimization fmt (arrays ?h1 channels1) intensity2 threshold2"
    by (rule invokeRunOptimization_pure(1) [OF assms(2) alive])
  also have "arrays ?h1 channels1 = arrays ha channels1"
    using frame assms(3) by simp
  finally have again: "fst (invokeRunOptimization srt2 fmt channels1 intensity2 threshold2 ?h1)
      = runOptimization fmt (arrays ha channels1) intensity2 threshold2" .
  show ?thesis
    using first other again frame assms(5,6,7) by simp
qed

theorem runOptimization_deterministic_witness:
  "stableSort sortBy \<and> stableSort sortForward
   \<and> 0 < fresh exampleHeap \<and> arrays exampleHeap 0 = exampleList
   \<and> map (\<lambda>(k, r). (k, recommendation r, priority r))
       (fst (invokeRunOptimization sortBy exampleFormat 0 15 70 exampleHeap)) =
      [(''A'', INCREASE, MEDIUM), (''B'', MAINTAIN, LOW), (''D'', MAINTAIN, LOW),
       (''E'', MAINTAIN, LOW), (''F'', MAINTAIN, LOW)]
   \<and> fst (invokeRunOptimization sortForward exampleFormat 0 15 70 exampleHeap)
      = fst (invokeRunOptimization sortBy exampleFormat 0 15 70 exampleHeap)
   \<and> fst (invokeRunOptimization sortForward exampleFormat 0 15 70
        (snd (invokeRunOptimization sortBy exampleFormat 0 15 70 exampleHeap)))
      = fst (invokeRunOptimization sortBy exampleFormat 0 15 70 exampleHeap)
   \<and> arrays (snd (invokeRunOptimization sortBy exampleFormat 0 15 70 exampleHeap)) 0 = exampleList"
proof -
  have alive: "0 < fresh exampleHeap" and arr: "arrays exampleHeap 0 = exampleList"
    by (simp_all add: exampleHeap_def)
  have run: "map (\<lambda>(k, r). (k, recommendation r, priority r))
       (runOptimization exampleFormat exampleList 15 70) =
      [(''A'', INCREASE, MEDIUM), (''B'', MAINTAIN, LOW), (''D'', MAINTAIN, LOW),
       (''E'', MAINTAIN, LOW), (''F'', MAINTAIN, LOW)]"
    by (simp add: run_simps exampleList_def)
  show ?thesis
    using alive arr run stableSort_sortBy stableSort_sortForward
      invokeRunOptimization_pure(1) [OF stableSort_sortBy alive, of exampleFormat 15 70]
      runOptimization_deterministic
        [OF stableSort_sortBy stableSort_sortForward alive alive refl refl refl,
         of exampleFormat 15 70]
    by simp
qed

end
